theory Spec2Isabelle
  imports Main "HOL-Library.Word"
begin

unbundle bit_operations_syntax

section \<open>Data model\<close>

text \<open>
  Byte slices are lists of 8-bit words; Go's \<open>len(b) == 0\<close> holds for \<open>nil\<close> and for
  the empty slice alike, so both are the empty list. \<open>uint64\<close> and \<open>int32\<close> are words
  of that width, so \<open>size++\<close> wraps as it does in Go.
\<close>

type_synonym byte = "8 word"
type_synonym bytes = "byte list"
type_synonym uint64 = "64 word"
type_synonym int32 = "32 word"

text \<open>\<open>types.EventData\<close>: opaque to this package, which only copies the pointers.\<close>

datatype EventData = EventData (EncodedBody: bytes)

text \<open>
  \<open>types.EvmTxReceipt\<close>: the three fields that \<open>receipts.go\<close> reads. Receipts reach
  \<open>CommitReceipts\<close> as pointers, which may be \<open>nil\<close>: a receipt pointer is an option.
\<close>

record EvmTxReceipt =
  TxHash :: bytes
  Status :: int32
  Logs :: "EventData list"

text \<open>\<open>types.EvmTxReceiptListItem\<close>: a chain node, the receipt and the hash of the next node.\<close>

record EvmTxReceiptListItem =
  Receipt :: "EvmTxReceipt option"
  NextTxHash :: bytes

definition EvmTxReceipt_zero :: EvmTxReceipt where
  "EvmTxReceipt_zero = \<lparr>TxHash = [], Status = 0, Logs = []\<rparr>"

definition EvmTxReceiptListItem_zero :: EvmTxReceiptListItem where
  "EvmTxReceiptListItem_zero = \<lparr>Receipt = None, NextTxHash = []\<rparr>"

definition statusTxSuccess :: int32 where
  "statusTxSuccess = 1"

subsection \<open>Errors and panics\<close>

text \<open>
  A Go \<open>error\<close> result is an \<open>error option\<close>, \<open>None\<close> being \<open>nil\<close>. An error of the
  protobuf codec carries its message; the constructors of \<open>github.com/pkg/errors\<close> keep
  what they were given.
\<close>

datatype error =
    ErrTxReceiptNotFound
  | ErrPendingReceiptNotFound
  | ProtoError string
  | EngineError string
  | ErrorsNew string
  | ErrorsErrorf string "uint64 list"
  | ErrorsWrap error string
  | ErrorsWrapf error string bytes

text \<open>
  \<open>errors.Wrap(err, msg)\<close> of \<open>github.com/pkg/errors\<close>: "If err is nil, Wrap returns
  nil"; \<open>errors.Wrapf\<close> likewise.
\<close>

definition errors_Wrap :: "error option \<Rightarrow> string \<Rightarrow> error option" where
  "errors_Wrap err message = (case err of None \<Rightarrow> None | Some e \<Rightarrow> Some (ErrorsWrap e message))"

definition errors_Wrapf :: "error option \<Rightarrow> string \<Rightarrow> bytes \<Rightarrow> error option" where
  "errors_Wrapf err format arg =
     (case err of None \<Rightarrow> None | Some e \<Rightarrow> Some (ErrorsWrapf e format arg))"

datatype panic = PanicError error | NilPointerDereference | IndexOutOfRange

text \<open>What a call does: it returns its results, or it panics.\<close>

datatype 'a go_result = Returns 'a | Panics panic

subsection \<open>The key-value store and its batch\<close>

text \<open>
  Modelled from the spec: the key-value store (\<open>get(key) -> bytes | absent\<close>,
  \<open>has(key) -> bool\<close>) and the batch wrapper of section 4.1 (\<open>Rollback\<close> is \<open>begin()\<close>,
  \<open>Commit\<close> is \<open>commit()\<close>); the declaration of \<open>EvmAuxStore\<close> with its \<open>db\<close>, \<open>batch\<close>
  and \<open>maxReceipts\<close> fields, \<open>Rollback\<close> and \<open>Commit\<close> are not in \<open>receipts.go\<close>.
  \<open>Get\<close> of an absent key is the \<open>nil\<close> slice.
\<close>

type_synonym DB = "bytes \<rightharpoonup> bytes"

definition db_Get :: "DB \<Rightarrow> bytes \<Rightarrow> bytes" where
  "db_Get d key = (case d key of None \<Rightarrow> [] | Some v \<Rightarrow> v)"

definition db_Has :: "DB \<Rightarrow> bytes \<Rightarrow> bool" where
  "db_Has d key = (case d key of None \<Rightarrow> False | Some v \<Rightarrow> True)"

datatype batch_op = BatchSet bytes bytes | BatchDelete bytes

fun batch_apply :: "DB \<Rightarrow> batch_op \<Rightarrow> DB" where
  "batch_apply d (BatchSet key v) = d(key \<mapsto> v)"
| "batch_apply d (BatchDelete key) = d(key := None)"

definition batch_Write :: "DB \<Rightarrow> batch_op list \<Rightarrow> DB" where
  "batch_Write d ops = foldl batch_apply d ops"

record EvmAuxStore =
  db :: DB
  batch :: "batch_op list"
  maxReceipts :: uint64

definition batch_Set :: "bytes \<Rightarrow> bytes \<Rightarrow> EvmAuxStore \<Rightarrow> EvmAuxStore" where
  "batch_Set key v s = s\<lparr>batch := batch s @ [BatchSet key v]\<rparr>"

definition batch_Delete :: "bytes \<Rightarrow> EvmAuxStore \<Rightarrow> EvmAuxStore" where
  "batch_Delete key s = s\<lparr>batch := batch s @ [BatchDelete key]\<rparr>"

definition Rollback :: "EvmAuxStore \<Rightarrow> EvmAuxStore" where
  "Rollback s = s\<lparr>batch := []\<rparr>"

definition Commit :: "EvmAuxStore \<Rightarrow> EvmAuxStore" where
  "Commit s = s\<lparr>db := batch_Write (db s) (batch s)\<rparr>"

subsection \<open>What the package takes from elsewhere\<close>

text \<open>
  The fixed keys, the per-height key families, the protobuf codec of a list item and of
  the hash list, and the bloom builder are declared outside \<open>receipts.go\<close>: they are
  parameters. A codec returns the bytes or the message, or its error text.
\<close>

record Env =
  currentDbSizeKey :: bytes
  headKey :: bytes
  tailKey :: bytes
  bloomFilterKey :: "uint64 \<Rightarrow> bytes"
  evmTxHashKey :: "uint64 \<Rightarrow> bytes"
  Marshal :: "EvmTxReceiptListItem \<Rightarrow> string + bytes"
  Unmarshal :: "bytes \<Rightarrow> string + EvmTxReceiptListItem"
  MarshalTxHashList :: "bytes list \<Rightarrow> string + bytes"
  GenBloomFilter :: "EventData list \<Rightarrow> bytes"

subsection \<open>Little-endian integers\<close>

text \<open>
  \<open>binary.LittleEndian.PutUint64\<close> and \<open>Uint64\<close>; the latter reads \<open>b[0..7]\<close> and
  panics on a shorter slice.
\<close>

definition PutUint64 :: "uint64 \<Rightarrow> bytes" where
  "PutUint64 v = map (\<lambda>i. ucast (drop_bit (8 * i) v)) [0, 1, 2, 3, 4, 5, 6, 7]"

definition Uint64 :: "bytes \<Rightarrow> uint64 option" where
  "Uint64 b =
     (if length b < 8 then None
      else Some (foldr (\<lambda>x acc. ucast x OR push_bit 8 acc) (take 8 b) 0))"

section \<open>receipts.go\<close>

subsection \<open>GetReceipt\<close>

definition GetReceipt :: "Env \<Rightarrow> EvmAuxStore \<Rightarrow> bytes \<Rightarrow> (EvmTxReceipt \<times> error option) go_result" where
  "GetReceipt env s txHash =
     (let txReceiptProto = db_Get (db s) txHash in
      if length txReceiptProto = 0 then Returns (EvmTxReceipt_zero, Some ErrTxReceiptNotFound)
      else
        (case Unmarshal env txReceiptProto of
          Inl e \<Rightarrow> Returns (EvmTxReceipt_zero, Some (ProtoError e))
        | Inr txReceipt \<Rightarrow>
            (case Receipt txReceipt of
              None \<Rightarrow> Panics NilPointerDereference
            | Some r \<Rightarrow> Returns (r, None))))"

subsection \<open>getDBParams and setDBParams\<close>

definition getDBParams :: "Env \<Rightarrow> EvmAuxStore \<Rightarrow> (uint64 \<times> bytes \<times> bytes \<times> error option) go_result" where
  "getDBParams env s =
     (let notEmpty = db_Has (db s) (currentDbSizeKey env) in
      if \<not> notEmpty then Returns (0, [], [], None)
      else
        (let sizeB = db_Get (db s) (currentDbSizeKey env) in
         case Uint64 sizeB of
           None \<Rightarrow> Panics IndexOutOfRange
         | Some sz \<Rightarrow>
             if sz = 0 then Returns (0, [], [], None)
             else
               (let head = db_Get (db s) (headKey env) in
                if length head = 0
                then Returns (0, [], [], Some (ErrorsNew ''no head for non zero size receipt db''))
                else
                  (let tail = db_Get (db s) (tailKey env) in
                   if length tail = 0
                   then Returns (0, [], [], Some (ErrorsNew ''no tail for non zero size receipt db''))
                   else Returns (sz, head, tail, None)))))"

definition setDBParams :: "Env \<Rightarrow> uint64 \<Rightarrow> bytes \<Rightarrow> bytes \<Rightarrow> EvmAuxStore \<Rightarrow> EvmAuxStore" where
  "setDBParams env sz head tail s =
     batch_Set (currentDbSizeKey env) (PutUint64 sz)
       (batch_Set (tailKey env) tail
         (batch_Set (headKey env) head s))"

subsection \<open>removeOldEntries\<close>

text \<open>
  The loop of \<open>removeOldEntries\<close>, from the state \<open>(i, head, itemsDeleted)\<close> and the
  store whose batch collects the deletions. It reads the nodes from \<open>s.db\<close>, never from
  the batch. \<open>Inl\<close> is the return from inside the loop, \<open>Inr\<close> the state at its exit.
\<close>

function removeOldEntries_loop ::
  "Env \<Rightarrow> uint64 \<Rightarrow> uint64 \<Rightarrow> bytes \<Rightarrow> uint64 \<Rightarrow> EvmAuxStore \<Rightarrow>
   (bytes \<times> uint64 \<times> error option \<times> EvmAuxStore) + (bytes \<times> uint64 \<times> EvmAuxStore)" where
  "removeOldEntries_loop env number i head itemsDeleted s =
     (if i < number \<and> length head > 0 then
        (let headItem = db_Get (db s) head in
         case Unmarshal env headItem of
           Inl e \<Rightarrow>
             Inl (head, itemsDeleted,
                  errors_Wrapf (Some (ProtoError e)) ''unmarshal head %s'' headItem, s)
         | Inr txHeadReceiptItem \<Rightarrow>
             removeOldEntries_loop env number (i + 1) (NextTxHash txHeadReceiptItem)
               (itemsDeleted + 1) (batch_Delete head s))
      else Inr (head, itemsDeleted, s))"
  by pat_completeness auto
termination
proof (relation "measure (\<lambda>(env, number, i, head, itemsDeleted, s). unat number - unat i)")
  show "wf (measure (\<lambda>(env, number, i, head, itemsDeleted, s). unat number - unat i))"
    by simp
next
  fix env :: Env and number i :: uint64 and head :: bytes and itemsDeleted :: uint64
    and s :: EvmAuxStore and x :: bytes and x2 :: EvmTxReceiptListItem
  assume "i < number \<and> 0 < length head"
  then have lt: "unat i < unat number"
    by (simp add: word_less_nat_alt)
  have "unat number < 2 ^ 64"
    using unsigned_less [of number] by simp
  with lt have "unat i + 1 < 2 ^ 64"
    by simp
  then have "unat (i + 1) = unat i + 1"
    by (simp add: unat_word_ariths)
  with lt show "((env, number, i + 1, NextTxHash x2, itemsDeleted + 1, batch_Delete head s),
                 (env, number, i, head, itemsDeleted, s))
        \<in> measure (\<lambda>(env, number, i, head, itemsDeleted, s). unat number - unat i)"
    by simp
qed

definition removeOldEntries ::
  "Env \<Rightarrow> EvmAuxStore \<Rightarrow> bytes \<Rightarrow> uint64 \<Rightarrow> bytes \<times> uint64 \<times> error option \<times> EvmAuxStore" where
  "removeOldEntries env s head number =
     (case removeOldEntries_loop env number 0 head 0 s of
        Inl ret \<Rightarrow> ret
      | Inr (head', itemsDeleted, s') \<Rightarrow>
          if itemsDeleted < number
          then (head', itemsDeleted,
                Some (ErrorsErrorf ''Unable to delete %v receipts, only %v deleted''
                        [number, itemsDeleted]), s')
          else (head', itemsDeleted, None, s'))"

subsection \<open>CommitReceipts\<close>

text \<open>
  Modelled from the spec: \<open>setTxHashList\<close> and \<open>setBloomFilter\<close> are called by
  \<open>CommitReceipts\<close> and declared elsewhere; step 8 of section 4.2 has them stage the
  encoded success-hash list and the bloom filter under the two per-height keys.
  \<open>setTxHashList\<close> returns an error, that of its encoder.
\<close>

definition setTxHashList :: "Env \<Rightarrow> bytes list \<Rightarrow> uint64 \<Rightarrow> EvmAuxStore \<Rightarrow> error option \<times> EvmAuxStore" where
  "setTxHashList env tHashList height s =
     (case MarshalTxHashList env tHashList of
        Inl e \<Rightarrow> (Some (ProtoError e), s)
      | Inr postTxHashList \<Rightarrow> (None, batch_Set (evmTxHashKey env height) postTxHashList s))"

definition setBloomFilter :: "Env \<Rightarrow> bytes \<Rightarrow> uint64 \<Rightarrow> EvmAuxStore \<Rightarrow> EvmAuxStore" where
  "setBloomFilter env filter' height s = batch_Set (bloomFilterKey env height) filter' s"

text \<open>Lines 47-56: the item of the current tail, or the return value of an early return.\<close>

definition load_tail ::
  "Env \<Rightarrow> EvmAuxStore \<Rightarrow> bytes \<Rightarrow> bytes \<Rightarrow> error option \<Rightarrow> error option + EvmTxReceiptListItem" where
  "load_tail env s headHash tailHash err =
     (if length headHash > 0 then
        (let tailItemProto = db_Get (db s) tailHash in
         if length tailItemProto = 0 then Inl (errors_Wrap err ''cannot find tail'')
         else
           (case Unmarshal env tailItemProto of
              Inl e \<Rightarrow> Inl (errors_Wrap (Some (ProtoError e)) ''unmarshalling tail'')
            | Inr item \<Rightarrow> Inr item))
      else Inr EvmTxReceiptListItem_zero)"

text \<open>The local variables of \<open>CommitReceipts\<close> that its loop changes, and the store.\<close>

record commit_vars =
  size' :: uint64
  headHash :: bytes
  tailHash :: bytes
  tailReceiptItem :: EvmTxReceiptListItem
  txHashArray :: "bytes list"
  events :: "EventData list"
  store :: EvmAuxStore

text \<open>
  Lines 75-78 and again 99-102: stage the write of the tail node, and count it when the
  durable store does not have its key.
\<close>

definition stage_tail :: "bytes \<Rightarrow> commit_vars \<Rightarrow> commit_vars" where
  "stage_tail protoTail v =
     v\<lparr>store := batch_Set (tailHash v) protoTail (store v),
       size' := (if \<not> db_Has (db (store v)) (tailHash v) then size' v + 1 else size' v)\<rparr>"

text \<open>
  Lines 66-80: \<open>Inl\<close> is the \<open>continue\<close> after a failed \<open>proto.Marshal\<close>, which keeps
  the assignment to \<open>tailReceiptItem.NextTxHash\<close> made before it.
\<close>

definition link_previous_tail :: "Env \<Rightarrow> EvmTxReceipt \<Rightarrow> commit_vars \<Rightarrow> commit_vars + commit_vars" where
  "link_previous_tail env txReceipt v =
     (if length (headHash v) = 0 then Inr (v\<lparr>headHash := TxHash txReceipt\<rparr>)
      else
        (let v1 = v\<lparr>tailReceiptItem := (tailReceiptItem v)\<lparr>NextTxHash := TxHash txReceipt\<rparr>\<rparr> in
         case Marshal env (tailReceiptItem v1) of
           Inl e \<Rightarrow> Inl v1
         | Inr protoTail \<Rightarrow> Inr (stage_tail protoTail v1)))"

text \<open>Lines 83-91.\<close>

definition set_next_tail :: "EvmTxReceipt \<Rightarrow> commit_vars \<Rightarrow> commit_vars" where
  "set_next_tail txReceipt v =
     v\<lparr>tailHash := TxHash txReceipt,
       tailReceiptItem := \<lparr>Receipt = Some txReceipt, NextTxHash = []\<rparr>,
       txHashArray :=
         (if Status txReceipt = statusTxSuccess then txHashArray v @ [TxHash txReceipt]
          else txHashArray v),
       events := events v @ Logs txReceipt\<rparr>"

text \<open>Lines 61-91: one iteration of the loop over \<open>receipts\<close>.\<close>

definition loop_body :: "Env \<Rightarrow> EvmTxReceipt option \<Rightarrow> commit_vars \<Rightarrow> commit_vars" where
  "loop_body env txReceipt v =
     (case txReceipt of
        None \<Rightarrow> v
      | Some r \<Rightarrow>
          if length (TxHash r) = 0 then v
          else
            (case link_previous_tail env r v of
               Inl v' \<Rightarrow> v'
             | Inr v' \<Rightarrow> set_next_tail r v'))"

fun receipts_loop :: "Env \<Rightarrow> EvmTxReceipt option list \<Rightarrow> commit_vars \<Rightarrow> commit_vars" where
  "receipts_loop env [] v = v"
| "receipts_loop env (txReceipt # receipts) v = receipts_loop env receipts (loop_body env txReceipt v)"

text \<open>Lines 94-104: a failed \<open>proto.Marshal\<close> is logged and nothing is staged.\<close>

definition final_tail :: "Env \<Rightarrow> commit_vars \<Rightarrow> commit_vars" where
  "final_tail env v =
     (if length (tailHash v) > 0 then
        (case Marshal env (tailReceiptItem v) of
           Inl e \<Rightarrow> v
         | Inr protoTail \<Rightarrow> stage_tail protoTail v)
      else v)"

text \<open>
  Lines 36-104: the early returns (\<open>Inl\<close>, with the store as it is then), or the
  variables with which line 106 is reached (\<open>Inr\<close>).
\<close>

definition link_phase ::
  "Env \<Rightarrow> EvmAuxStore \<Rightarrow> EvmTxReceipt option list \<Rightarrow>
   ((error option \<times> EvmAuxStore) + commit_vars) go_result" where
  "link_phase env s receipts =
     (if length receipts = 0 \<or> maxReceipts s = 0 then Returns (Inl (None, s))
      else
        (let s0 = Rollback s in
         case getDBParams env s0 of
           Panics p \<Rightarrow> Panics p
         | Returns (sz, headHash0, tailHash0, err) \<Rightarrow>
             if err \<noteq> None then Returns (Inl (errors_Wrap err ''getting db params.'', s0))
             else
               (case load_tail env s0 headHash0 tailHash0 err of
                  Inl ret \<Rightarrow> Returns (Inl (ret, s0))
                | Inr item \<Rightarrow>
                    Returns (Inr (final_tail env (receipts_loop env receipts
                      \<lparr>size' = sz, headHash = headHash0, tailHash = tailHash0,
                       tailReceiptItem = item, txHashArray = [], events = [],
                       store = s0\<rparr>))))))"

text \<open>Lines 106-127: eviction, the parameters, the per-height entries and the commit.\<close>

definition evict :: "Env \<Rightarrow> commit_vars \<Rightarrow> (error option \<times> EvmAuxStore) + commit_vars" where
  "evict env v =
     (if maxReceipts (store v) < size' v then
        (case removeOldEntries env (store v) (headHash v) (size' v - maxReceipts (store v)) of
           (headHash', numDeleted, err, s') \<Rightarrow>
             if err \<noteq> None then Inl (errors_Wrap err ''removing old receipts'', s')
             else if size' v < numDeleted
             then Inl (errors_Wrap err ''invalid count of deleted receipts'', s')
             else Inr (v\<lparr>headHash := headHash', size' := size' v - numDeleted, store := s'\<rparr>))
      else Inr v)"

definition write_and_commit :: "Env \<Rightarrow> uint64 \<Rightarrow> commit_vars \<Rightarrow> error option \<times> EvmAuxStore" where
  "write_and_commit env height v =
     (let s1 = setDBParams env (size' v) (headHash v) (tailHash v) (store v);
          filter' = GenBloomFilter env (events v)
      in case setTxHashList env (txHashArray v) height s1 of
           (Some e, s2) \<Rightarrow> (errors_Wrap (Some e) ''append tx list'', s2)
         | (None, s2) \<Rightarrow> (None, Commit (setBloomFilter env filter' height s2)))"

definition CommitReceipts ::
  "Env \<Rightarrow> EvmAuxStore \<Rightarrow> EvmTxReceipt option list \<Rightarrow> uint64 \<Rightarrow> (error option \<times> EvmAuxStore) go_result" where
  "CommitReceipts env s receipts height =
     (case link_phase env s receipts of
        Panics p \<Rightarrow> Panics p
      | Returns (Inl ret) \<Rightarrow> Returns ret
      | Returns (Inr v) \<Rightarrow>
          (case evict env v of
             Inl ret \<Rightarrow> Returns ret
           | Inr v' \<Rightarrow> Returns (write_and_commit env height v')))"

section \<open>goleveldb.go\<close>

text \<open>
  The embedded \<open>*dbm.GoLevelDB\<close> is the engine: what a call of its \<open>DB().GetSnapshot()\<close>
  returns, a snapshot handle and an error, is a field of the model.
\<close>

datatype leveldb_Snapshot = leveldb_Snapshot DB

record GoLevelDB =
  DB_GetSnapshot :: "leveldb_Snapshot \<times> error option"

datatype GoLevelDBSnapshot = GoLevelDBSnapshot (Snapshot: leveldb_Snapshot)

definition GetSnapshot :: "GoLevelDB \<Rightarrow> GoLevelDBSnapshot go_result" where
  "GetSnapshot g =
     (case DB_GetSnapshot g of
        (snap, Some err) \<Rightarrow> Panics (PanicError err)
      | (snap, None) \<Rightarrow> Returns (GoLevelDBSnapshot snap))"

section \<open>Notions the properties are stated with\<close>

text \<open>The guard of line 61: a \<open>nil\<close> receipt, or one with an empty \<open>TxHash\<close>.\<close>

definition skipped :: "EvmTxReceipt option \<Rightarrow> bool" where
  "skipped txReceipt = (case txReceipt of None \<Rightarrow> True | Some r \<Rightarrow> length (TxHash r) = 0)"


text \<open>The keys of the writes in a batch, in the order they were staged.\<close>

fun staged_keys :: "batch_op list \<Rightarrow> bytes list" where
  "staged_keys [] = []"
| "staged_keys (BatchSet key v # ops) = key # staged_keys ops"
| "staged_keys (BatchDelete key # ops) = staged_keys ops"

text \<open>Of a list of keys, those the durable store does not have.\<close>

definition absent_keys :: "DB \<Rightarrow> bytes list \<Rightarrow> bytes list" where
  "absent_keys d ks = filter (\<lambda>key. \<not> db_Has d key) ks"

text \<open>
  What a stretch of \<open>CommitReceipts\<close> between two states of its variables did: it
  staged the operations \<open>ops\<close> after those already in the batch and left the durable
  store alone.
\<close>

definition staged_between :: "commit_vars \<Rightarrow> commit_vars \<Rightarrow> batch_op list \<Rightarrow> bool" where
  "staged_between v v' ops =
     (batch (store v') = batch (store v) @ ops \<and> db (store v') = db (store v)
      \<and> maxReceipts (store v') = maxReceipts (store v))"

text \<open>
  The bookkeeping of the running size over such a stretch: it grew by the number of
  staged writes whose key the durable store does not have.
\<close>

definition counted :: "commit_vars \<Rightarrow> commit_vars \<Rightarrow> bool" where
  "counted v v' =
     (\<exists>ops. staged_between v v' ops
        \<and> size' v' = size' v + of_nat (length (absent_keys (db (store v)) (staged_keys ops))))"

text \<open>The three chain parameters as the durable store holds them.\<close>

definition stored_params :: "Env \<Rightarrow> EvmAuxStore \<Rightarrow> bytes \<times> bytes \<times> bytes" where
  "stored_params env s =
     (db_Get (db s) (currentDbSizeKey env), db_Get (db s) (headKey env),
      db_Get (db s) (tailKey env))"


text \<open>
  Walking \<open>next\<close> from a hash for \<open>n\<close> steps: the keys of the nodes visited, or \<open>None\<close>
  when a node on the way cannot be fetched from the durable store or does not decode.
  The last next pointer is returned with the keys.
\<close>

fun walk :: "Env \<Rightarrow> DB \<Rightarrow> nat \<Rightarrow> bytes \<Rightarrow> (bytes list \<times> bytes) option" where
  "walk env d 0 h = Some ([], h)"
| "walk env d (Suc n) h =
     (if db_Get d h = [] then None
      else
        (case Unmarshal env (db_Get d h) of
           Inl e \<Rightarrow> None
         | Inr item \<Rightarrow>
             (case walk env d n (NextTxHash item) of
                None \<Rightarrow> None
              | Some (ks, final) \<Rightarrow> Some (h # ks, final))))"

text \<open>
  The chain invariant of the durable state, on the parameters as stored (no size key is
  size zero): size is zero exactly when head and tail are empty, and otherwise the walk
  of size steps from head fetches size nodes, ends in the tail, and the tail's next
  pointer is empty.
\<close>

definition chain_invariant :: "Env \<Rightarrow> EvmAuxStore \<Rightarrow> bool" where
  "chain_invariant env s =
     (let d = db s;
          sz = (if db_Has d (currentDbSizeKey env)
                then (case Uint64 (db_Get d (currentDbSizeKey env)) of None \<Rightarrow> 0 | Some n \<Rightarrow> n)
                else 0);
          head = db_Get d (headKey env);
          tail = db_Get d (tailKey env)
      in if sz = 0 then head = [] \<and> tail = []
         else head \<noteq> [] \<and> tail \<noteq> [] \<and>
           (case walk env d (unat sz) head of
              None \<Rightarrow> False
            | Some (ks, final) \<Rightarrow> last ks = tail \<and> final = []))"

text \<open>
  A sequence of calls of \<open>CommitReceipts\<close>, each on the store the one before left:
  the final store when every call returned \<open>nil\<close>, \<open>None\<close> otherwise.
\<close>

fun commit_all :: "Env \<Rightarrow> EvmAuxStore \<Rightarrow> (EvmTxReceipt option list \<times> uint64) list \<Rightarrow> EvmAuxStore option" where
  "commit_all env s [] = Some s"
| "commit_all env s ((receipts, height) # blocks) =
     (case CommitReceipts env s receipts height of
        Returns (None, s') \<Rightarrow> commit_all env s' blocks
      | _ \<Rightarrow> None)"




text \<open>The two per-height entries of a height as the durable store holds them.\<close>

definition height_entries :: "Env \<Rightarrow> uint64 \<Rightarrow> EvmAuxStore \<Rightarrow> bytes option \<times> bytes option" where
  "height_entries env height s =
     (db s (bloomFilterKey env height), db s (evmTxHashKey env height))"

section \<open>A codec and keys to run the code on\<close>

text \<open>
  A concrete instance of the parameters: every byte string is written with a
  continuation marker before each byte, so the encoding is total and self-delimiting.
  As with protobuf, the message with no field set is the empty byte string, and the
  empty byte string decodes to that message.
\<close>

fun enc_bytes :: "bytes \<Rightarrow> bytes" where
  "enc_bytes [] = [0]"
| "enc_bytes (b # bs) = 1 # b # enc_bytes bs"

fun dec_bytes :: "bytes \<Rightarrow> (bytes \<times> bytes) option" where
  "dec_bytes [] = None"
| "dec_bytes [t] = (if t = 0 then Some ([], []) else None)"
| "dec_bytes (t # b # rest) =
     (if t = 0 then Some ([], b # rest)
      else (case dec_bytes rest of None \<Rightarrow> None | Some (x, r) \<Rightarrow> Some (b # x, r)))"

fun enc_logs :: "EventData list \<Rightarrow> bytes" where
  "enc_logs [] = [0]"
| "enc_logs (e # es) = 1 # enc_bytes (EncodedBody e) @ enc_logs es"

function dec_logs :: "bytes \<Rightarrow> (EventData list \<times> bytes) option" where
  "dec_logs [] = None"
| "dec_logs (t # rest) =
     (if t = 0 then Some ([], rest)
      else
        (case dec_bytes rest of
           None \<Rightarrow> None
         | Some (body, r) \<Rightarrow>
             if length r \<le> length rest
             then (case dec_logs r of None \<Rightarrow> None | Some (es, r') \<Rightarrow> Some (EventData body # es, r'))
             else None))"
  by pat_completeness auto
termination
  by (relation "measure length") auto

definition enc_receipt :: "EvmTxReceipt \<Rightarrow> bytes" where
  "enc_receipt r =
     enc_bytes (TxHash r) @ map (\<lambda>i. ucast (drop_bit (8 * i) (Status r))) [0, 1, 2, 3]
       @ enc_logs (Logs r)"

definition dec_receipt :: "bytes \<Rightarrow> (EvmTxReceipt \<times> bytes) option" where
  "dec_receipt b =
     (case dec_bytes b of
        None \<Rightarrow> None
      | Some (h, r1) \<Rightarrow>
          if length r1 < 4 then None
          else
            (case dec_logs (drop 4 r1) of
               None \<Rightarrow> None
             | Some (ls, r2) \<Rightarrow>
                 Some (\<lparr>TxHash = h,
                        Status = foldr (\<lambda>x acc. ucast x OR push_bit 8 acc) (take 4 r1) 0,
                        Logs = ls\<rparr>, r2)))"

definition demo_Marshal :: "EvmTxReceiptListItem \<Rightarrow> string + bytes" where
  "demo_Marshal item =
     (case Receipt item of
        None \<Rightarrow> if NextTxHash item = [] then Inr [] else Inr (0 # enc_bytes (NextTxHash item))
      | Some r \<Rightarrow> Inr (1 # enc_receipt r @ enc_bytes (NextTxHash item)))"

definition demo_Unmarshal :: "bytes \<Rightarrow> string + EvmTxReceiptListItem" where
  "demo_Unmarshal b =
     (case b of
        [] \<Rightarrow> Inr EvmTxReceiptListItem_zero
      | t # rest \<Rightarrow>
          if t = 0 then
            (case dec_bytes rest of
               Some (n, []) \<Rightarrow> Inr \<lparr>Receipt = None, NextTxHash = n\<rparr>
             | _ \<Rightarrow> Inl ''proto: cannot parse'')
          else
            (case dec_receipt rest of
               None \<Rightarrow> Inl ''proto: cannot parse''
             | Some (r, rest') \<Rightarrow>
                 (case dec_bytes rest' of
                    Some (n, []) \<Rightarrow> Inr \<lparr>Receipt = Some r, NextTxHash = n\<rparr>
                  | _ \<Rightarrow> Inl ''proto: cannot parse'')))"

definition demo_env :: Env where
  "demo_env =
     \<lparr>currentDbSizeKey = [100, 1], headKey = [100, 2], tailKey = [100, 3],
      bloomFilterKey = (\<lambda>h. [98, 102] @ PutUint64 h),
      evmTxHashKey = (\<lambda>h. [116, 104] @ PutUint64 h),
      Marshal = demo_Marshal, Unmarshal = demo_Unmarshal,
      MarshalTxHashList = (\<lambda>hs. Inr (concat (map enc_bytes hs))),
      GenBloomFilter = (\<lambda>es. concat (map EncodedBody es))\<rparr>"

definition empty_store :: "uint64 \<Rightarrow> EvmAuxStore" where
  "empty_store m = \<lparr>db = Map.empty, batch = [], maxReceipts = m\<rparr>"

definition receipt :: "bytes \<Rightarrow> int32 \<Rightarrow> EventData list \<Rightarrow> EvmTxReceipt option" where
  "receipt h st ls = Some \<lparr>TxHash = h, Status = st, Logs = ls\<rparr>"

definition rA :: "EvmTxReceipt option" where
  "rA = receipt [10] 1 [EventData [1]]"

definition rB :: "EvmTxReceipt option" where
  "rB = receipt [11] 0 [EventData [2]]"

definition rC :: "EvmTxReceipt option" where
  "rC = receipt [12] 1 []"

definition rD :: "EvmTxReceipt option" where
  "rD = receipt [13] 1 [EventData [3]]"


text \<open>Stores to run the code on.\<close>

definition orphan_store :: EvmAuxStore where
  "orphan_store =
     \<lparr>db = [[10] \<mapsto> [1, 1, 10, 0, 1, 0, 0, 0, 0, 0]], batch = [], maxReceipts = 2\<rparr>"

definition bare_item_store :: EvmAuxStore where
  "bare_item_store = \<lparr>db = [[9] \<mapsto> [0, 1, 5, 0]], batch = [], maxReceipts = 2\<rparr>"

definition missing_tail_store :: EvmAuxStore where
  "missing_tail_store =
     \<lparr>db = [[100, 1] \<mapsto> [1, 0, 0, 0, 0, 0, 0, 0], [100, 2] \<mapsto> [10], [100, 3] \<mapsto> [11],
            [10] \<mapsto> [1, 1, 10, 0, 1, 0, 0, 0, 0, 1, 11, 0]],
      batch = [], maxReceipts = 2\<rparr>"

definition closed_engine :: GoLevelDB where
  "closed_engine = \<lparr>DB_GetSnapshot = (leveldb_Snapshot Map.empty, Some (EngineError ''leveldb: closed''))\<rparr>"

definition linked_store :: EvmAuxStore where
  "linked_store =
     \<lparr>db = [[100, 1] \<mapsto> [2, 0, 0, 0, 0, 0, 0, 0], [100, 2] \<mapsto> [10], [100, 3] \<mapsto> [11],
            [10] \<mapsto> [1, 1, 10, 0, 1, 0, 0, 0, 0, 1, 11, 0],
            [11] \<mapsto> [1, 1, 11, 0, 0, 0, 0, 0, 0, 0]],
      batch = [], maxReceipts = 5\<rparr>"

definition linked_vars :: commit_vars where
  "linked_vars =
     \<lparr>size' = 2, headHash = [10], tailHash = [11],
      tailReceiptItem = \<lparr>Receipt = receipt [11] 0 [], NextTxHash = []\<rparr>,
      txHashArray = [], events = [], store = linked_store\<rparr>"



text \<open>A store that holds a key with an empty value.\<close>

definition empty_value_store :: EvmAuxStore where
  "empty_value_store = \<lparr>db = [[9] \<mapsto> []], batch = [], maxReceipts = 2\<rparr>"

text \<open>The chain of two nodes under a bound of one.\<close>

definition over_bound_store :: EvmAuxStore where
  "over_bound_store =
     \<lparr>db = [[100, 1] \<mapsto> [2, 0, 0, 0, 0, 0, 0, 0], [100, 2] \<mapsto> [10], [100, 3] \<mapsto> [11],
            [10] \<mapsto> [1, 1, 10, 0, 1, 0, 0, 0, 0, 1, 11, 0],
            [11] \<mapsto> [1, 1, 11, 0, 0, 0, 0, 0, 0, 0]],
      batch = [], maxReceipts = 1\<rparr>"

section \<open>Properties\<close>

subsection \<open>Facts about the store operations\<close>

lemma db_Rollback [simp]: "db (Rollback s) = db s"
  by (simp add: Rollback_def)

lemma maxReceipts_Rollback [simp]: "maxReceipts (Rollback s) = maxReceipts s"
  by (simp add: Rollback_def)

lemma db_batch_Set [simp]: "db (batch_Set key v s) = db s"
  by (simp add: batch_Set_def)

lemma db_batch_Delete [simp]: "db (batch_Delete key s) = db s"
  by (simp add: batch_Delete_def)

lemma maxReceipts_batch_Set [simp]: "maxReceipts (batch_Set key v s) = maxReceipts s"
  by (simp add: batch_Set_def)

lemma db_Get_absent: "d key = None \<Longrightarrow> db_Get d key = []"
  by (simp add: db_Get_def)

subsection \<open>The early return of CommitReceipts\<close>

text \<open>
  C3. For every store and every height, \<open>CommitReceipts\<close> with an empty list of
  receipts, or with \<open>maxReceipts\<close> equal to zero, returns \<open>nil\<close> and the store is the one
  it was given: the durable map is the same (so size, head, tail and every node are), no
  per-height key is created, and nothing is staged either.
\<close>

theorem CommitReceipts_empty_or_unbounded_is_noop:
  assumes "receipts = [] \<or> maxReceipts s = 0"
  shows "CommitReceipts env s receipts height = Returns (None, s)"
  using assms by (auto simp: CommitReceipts_def link_phase_def)

theorem CommitReceipts_empty_or_unbounded_is_noop_witness:
  "CommitReceipts demo_env (empty_store 5) [] 7 = Returns (None, empty_store 5)
   \<and> CommitReceipts demo_env (empty_store 0) [receipt [10] 1 []] 7 = Returns (None, empty_store 0)"
proof
  show "CommitReceipts demo_env (empty_store 5) [] 7 = Returns (None, empty_store 5)"
    by (rule CommitReceipts_empty_or_unbounded_is_noop) simp
  show "CommitReceipts demo_env (empty_store 0) [receipt [10] 1 []] 7 = Returns (None, empty_store 0)"
    by (rule CommitReceipts_empty_or_unbounded_is_noop) (simp add: empty_store_def)
qed

subsection \<open>GetReceipt\<close>

text \<open>
  C6, as amended. \<open>GetReceipt\<close> fails with \<open>ErrTxReceiptNotFound\<close> exactly when the lookup
  of the hash yields no bytes, that is, when the store has no such key or holds an empty
  value under it. When the lookup yields bytes that decode to an item that carries a
  receipt, that receipt is returned with a \<open>nil\<close> error; when they decode to an item
  without a receipt, the call panics. The result depends on the store only through the
  value under the hash itself: any two stores that agree there, whatever their size,
  head, tail and other nodes say, give the same result.
\<close>

theorem GetReceipt_point_lookup:
  "((\<exists>r. GetReceipt env s txHash = Returns (r, Some ErrTxReceiptNotFound))
      \<longleftrightarrow> db s txHash = None \<or> db s txHash = Some [])
   \<and> (db s txHash = None \<or> db s txHash = Some [] \<longrightarrow>
        GetReceipt env s txHash = Returns (EvmTxReceipt_zero, Some ErrTxReceiptNotFound))
   \<and> (\<forall>item r. db_Get (db s) txHash \<noteq> [] \<and> Unmarshal env (db_Get (db s) txHash) = Inr item
          \<and> Receipt item = Some r \<longrightarrow>
        GetReceipt env s txHash = Returns (r, None))
   \<and> (\<forall>item. db_Get (db s) txHash \<noteq> [] \<and> Unmarshal env (db_Get (db s) txHash) = Inr item
          \<and> Receipt item = None \<longrightarrow>
        GetReceipt env s txHash = Panics NilPointerDereference)
   \<and> (\<forall>s'. db s' txHash = db s txHash \<longrightarrow> GetReceipt env s' txHash = GetReceipt env s txHash)"
  by (auto simp: GetReceipt_def Let_def db_Get_def split: sum.splits option.splits)

theorem GetReceipt_point_lookup_witness:
  "getDBParams demo_env orphan_store = Returns (0, [], [], None)
   \<and> GetReceipt demo_env orphan_store [10] = Returns (\<lparr>TxHash = [10], Status = 1, Logs = []\<rparr>, None)
   \<and> GetReceipt demo_env orphan_store [11] = Returns (EvmTxReceipt_zero, Some ErrTxReceiptNotFound)"
proof -
  have dec: "Unmarshal demo_env (db_Get (db orphan_store) [10])
      = Inr \<lparr>Receipt = Some \<lparr>TxHash = [10], Status = 1, Logs = []\<rparr>, NextTxHash = []\<rparr>"
    by (simp add: demo_env_def db_Get_def orphan_store_def demo_Unmarshal_def dec_receipt_def)
  have present: "db_Get (db orphan_store) [10] \<noteq> []"
    by (simp add: db_Get_def orphan_store_def)
  have absent: "db orphan_store [11] = None"
    by (simp add: orphan_store_def)
  have params: "getDBParams demo_env orphan_store = Returns (0, [], [], None)"
    by (simp add: getDBParams_def orphan_store_def demo_env_def db_Has_def)
  from GetReceipt_point_lookup [of demo_env orphan_store "[10]"] present dec
  have found: "GetReceipt demo_env orphan_store [10]
      = Returns (\<lparr>TxHash = [10], Status = 1, Logs = []\<rparr>, None)"
    by simp
  from GetReceipt_point_lookup [of demo_env orphan_store "[11]"] absent
  have missing: "GetReceipt demo_env orphan_store [11]
      = Returns (EvmTxReceipt_zero, Some ErrTxReceiptNotFound)"
    by simp
  from params found missing show ?thesis by simp
qed

text \<open>
  C6 as stated fails twice. A store that holds a value under the hash, the empty one,
  still gives \<open>ErrTxReceiptNotFound\<close>. And a store whose value under the hash decodes,
  to an item without a receipt, gives no receipt field back: the call panics.
\<close>

theorem GetReceipt_lookup_counterexample:
  "db empty_value_store [9] = Some []
   \<and> GetReceipt demo_env empty_value_store [9]
       = Returns (EvmTxReceipt_zero, Some ErrTxReceiptNotFound)
   \<and> db bare_item_store [9] = Some [0, 1, 5, 0]
   \<and> Unmarshal demo_env [0, 1, 5, 0] = Inr \<lparr>Receipt = None, NextTxHash = [5]\<rparr>
   \<and> GetReceipt demo_env bare_item_store [9] = Panics NilPointerDereference"
  by (simp add: GetReceipt_def db_Get_def empty_value_store_def bare_item_store_def
      demo_env_def demo_Unmarshal_def)

text \<open>
  C10. \<open>GetReceipt\<close> dereferences the \<open>Receipt\<close> field of the decoded item without a
  check: it panics with a nil-pointer dereference exactly when the store holds a
  non-empty value under the hash that decodes, without error, to an item whose \<open>Receipt\<close>
  is \<open>nil\<close>. It returns, with a receipt or an error, in every other case, so it is total
  only on stores whose decodable items all carry a receipt.
\<close>

theorem GetReceipt_panics_on_nil_Receipt:
  "(GetReceipt env s txHash = Panics NilPointerDereference
      \<longleftrightarrow> db_Get (db s) txHash \<noteq> []
          \<and> (\<exists>item. Unmarshal env (db_Get (db s) txHash) = Inr item \<and> Receipt item = None))
   \<and> ((\<exists>p. GetReceipt env s txHash = Panics p)
      \<longleftrightarrow> GetReceipt env s txHash = Panics NilPointerDereference)"
  by (auto simp: GetReceipt_def Let_def split: sum.splits option.splits)

theorem GetReceipt_panics_on_nil_Receipt_witness:
  "GetReceipt demo_env bare_item_store [9] = Panics NilPointerDereference"
proof -
  have "db_Get (db bare_item_store) [9] \<noteq> []"
    by (simp add: db_Get_def bare_item_store_def)
  moreover have "Unmarshal demo_env (db_Get (db bare_item_store) [9])
      = Inr \<lparr>Receipt = None, NextTxHash = [5]\<rparr>"
    by (simp add: demo_env_def db_Get_def bare_item_store_def demo_Unmarshal_def)
  ultimately show ?thesis
    using GetReceipt_panics_on_nil_Receipt [of demo_env bare_item_store "[9]"] by simp
qed

subsection \<open>GetSnapshot\<close>

text \<open>
  C9. \<open>GetSnapshot\<close> of the GoLevelDB wrapper panics, with the engine's error as the
  panic value, whenever the engine's snapshot acquisition returns an error; its result
  type has no error component, so the failure cannot reach the caller as a value. It
  returns the wrapped snapshot when the engine returns no error.
\<close>

theorem GetSnapshot_panics_on_engine_error:
  "(\<forall>snap err. DB_GetSnapshot g = (snap, Some err) \<longrightarrow> GetSnapshot g = Panics (PanicError err))
   \<and> (\<forall>snap. DB_GetSnapshot g = (snap, None) \<longrightarrow> GetSnapshot g = Returns (GoLevelDBSnapshot snap))"
  by (simp add: GetSnapshot_def)

theorem GetSnapshot_panics_on_engine_error_witness:
  "GetSnapshot closed_engine = Panics (PanicError (EngineError ''leveldb: closed''))"
proof -
  have "DB_GetSnapshot closed_engine
      = (leveldb_Snapshot Map.empty, Some (EngineError ''leveldb: closed''))"
    by (simp add: closed_engine_def)
  with GetSnapshot_panics_on_engine_error [of closed_engine] show ?thesis
    by blast
qed

subsection \<open>The missing tail\<close>

text \<open>
  C1. The claim is that a call with receipts and a non-zero bound fails with a corruption
  error when the parameters name a non-empty head and the store has no value under the
  tail hash. The code does the opposite on every such call: line 51 wraps \<open>err\<close>, which is
  \<open>nil\<close> after the check of line 43, and \<open>errors.Wrap\<close> of \<open>nil\<close> is \<open>nil\<close>, so the call
  returns \<open>nil\<close>, the value of success, having written nothing.
\<close>

theorem CommitReceipts_missing_tail_returns_nil:
  assumes "receipts \<noteq> []" and "maxReceipts s \<noteq> 0"
    and "getDBParams env (Rollback s) = Returns (sz, head, tail, None)"
    and "head \<noteq> []" and "db_Get (db s) tail = []"
  shows "CommitReceipts env s receipts height = Returns (None, Rollback s)"
  using assms
  by (simp add: CommitReceipts_def link_phase_def load_tail_def errors_Wrap_def)

theorem CommitReceipts_missing_tail_returns_nil_witness:
  "getDBParams demo_env (Rollback missing_tail_store) = Returns (1, [10], [11], None)
   \<and> db_Get (db missing_tail_store) [11] = []
   \<and> CommitReceipts demo_env missing_tail_store [receipt [12] 1 []] 2
       = Returns (None, Rollback missing_tail_store)"
proof -
  have params: "getDBParams demo_env (Rollback missing_tail_store) = Returns (1, [10], [11], None)"
    by (simp add: getDBParams_def missing_tail_store_def demo_env_def db_Has_def db_Get_def
        Uint64_def)
  have gone: "db_Get (db missing_tail_store) [11] = []"
    by (simp add: db_Get_def missing_tail_store_def)
  have bound: "maxReceipts missing_tail_store \<noteq> 0"
    by (simp add: missing_tail_store_def)
  from CommitReceipts_missing_tail_returns_nil [OF _ bound params _ gone, of "[receipt [12] 1 []]" 2]
  have "CommitReceipts demo_env missing_tail_store [receipt [12] 1 []] 2
      = Returns (None, Rollback missing_tail_store)"
    by simp
  with params gone show ?thesis by simp
qed

subsection \<open>Counting the staged tail nodes\<close>

lemma staged_keys_append: "staged_keys (xs @ ys) = staged_keys xs @ staged_keys ys"
  by (induction xs rule: staged_keys.induct) simp_all

lemma absent_keys_append: "absent_keys d (xs @ ys) = absent_keys d xs @ absent_keys d ys"
  by (simp add: absent_keys_def)

lemma counted_refl: "counted v v"
  by (auto simp: counted_def staged_between_def absent_keys_def)

lemma counted_trans:
  assumes "counted v v'" and "counted v' v''"
  shows "counted v v''"
proof -
  from assms(1) obtain ops where a: "staged_between v v' ops"
    and sa: "size' v' = size' v + of_nat (length (absent_keys (db (store v)) (staged_keys ops)))"
    by (auto simp: counted_def)
  from assms(2) obtain ops' where b: "staged_between v' v'' ops'"
    and sb: "size' v'' = size' v' + of_nat (length (absent_keys (db (store v')) (staged_keys ops')))"
    by (auto simp: counted_def)
  from a b have "staged_between v v'' (ops @ ops')"
    by (simp add: staged_between_def)
  moreover from a sa sb have "size' v'' = size' v
      + of_nat (length (absent_keys (db (store v)) (staged_keys (ops @ ops'))))"
    by (simp add: staged_between_def staged_keys_append absent_keys_append)
  ultimately show ?thesis
    unfolding counted_def by blast
qed

lemma counted_stage_tail: "counted v (stage_tail p v)"
  unfolding counted_def
  by (rule exI [of _ "[BatchSet (tailHash v) p]"])
     (simp add: stage_tail_def staged_between_def batch_Set_def absent_keys_def)

lemma counted_same_store:
  "store v' = store v \<Longrightarrow> size' v' = size' v \<Longrightarrow> counted v v'"
  by (auto simp: counted_def staged_between_def absent_keys_def)

lemma counted_loop_body: "counted v (loop_body env r v)"
proof (cases "skipped r")
  case True
  then have "loop_body env r v = v"
    by (auto simp: loop_body_def skipped_def split: option.splits)
  then show ?thesis by (simp add: counted_refl)
next
  case False
  then obtain x where r: "r = Some x" and h: "length (TxHash x) \<noteq> 0"
    by (auto simp: skipped_def split: option.splits)
  show ?thesis
  proof (cases "link_previous_tail env x v")
    case (Inl v1)
    then have "store v1 = store v" "size' v1 = size' v"
      by (auto simp: link_previous_tail_def Let_def split: if_splits sum.splits)
    with Inl r h show ?thesis
      by (simp add: loop_body_def counted_same_store)
  next
    case (Inr v1)
    have "counted v v1"
    proof (cases "length (headHash v) = 0")
      case True
      with Inr show ?thesis
        by (auto simp: link_previous_tail_def intro: counted_same_store)
    next
      case False
      let ?v0 = "v\<lparr>tailReceiptItem := (tailReceiptItem v)\<lparr>NextTxHash := TxHash x\<rparr>\<rparr>"
      from False Inr obtain p where "v1 = stage_tail p ?v0"
        by (auto simp: link_previous_tail_def Let_def split: sum.splits)
      then have "counted ?v0 v1"
        by (simp add: counted_stage_tail)
      moreover have "counted v ?v0"
        by (simp add: counted_same_store)
      ultimately show ?thesis
        by (rule counted_trans [rotated])
    qed
    moreover have "counted v1 (set_next_tail x v1)"
      by (simp add: set_next_tail_def counted_same_store)
    ultimately have "counted v (set_next_tail x v1)"
      by (rule counted_trans)
    with Inr r h show ?thesis
      by (simp add: loop_body_def)
  qed
qed

lemma counted_receipts_loop: "counted v (receipts_loop env receipts v)"
proof (induction receipts arbitrary: v)
  case Nil
  show ?case by (simp add: counted_refl)
next
  case (Cons r receipts)
  from counted_loop_body Cons.IH show ?case
    by (simp, rule counted_trans)
qed

lemma counted_final_tail: "counted v (final_tail env v)"
  by (auto simp: final_tail_def counted_refl counted_stage_tail split: sum.splits)

text \<open>
  C8. Each staging of a tail node (\<open>stage_tail\<close>, the code of lines 75-78 and of lines
  99-102) appends one write of the tail's key to the batch and increments the running
  size if and only if the durable store does not have that key. Over the whole loop and
  the final staging nothing else changes the size: it ends as the initial size plus the
  number of staged writes whose key the durable store does not have, so a tail that is
  already persisted is staged again without being counted again.
\<close>

theorem tail_staging_counts_absent_keys:
  "size' (stage_tail protoTail v)
     = (if db_Has (db (store v)) (tailHash v) then size' v else size' v + 1)
   \<and> (size' (stage_tail protoTail v) \<noteq> size' v \<longleftrightarrow> \<not> db_Has (db (store v)) (tailHash v))
   \<and> batch (store (stage_tail protoTail v)) = batch (store v) @ [BatchSet (tailHash v) protoTail]
   \<and> batch (store (final_tail env (receipts_loop env receipts v)))
       = batch (store v)
         @ drop (length (batch (store v))) (batch (store (final_tail env (receipts_loop env receipts v))))
   \<and> size' (final_tail env (receipts_loop env receipts v))
       = size' v + of_nat (length (absent_keys (db (store v)) (staged_keys
           (drop (length (batch (store v)))
              (batch (store (final_tail env (receipts_loop env receipts v))))))))"
proof -
  have "counted v (final_tail env (receipts_loop env receipts v))"
    using counted_receipts_loop counted_final_tail by (rule counted_trans)
  then obtain ops where
    ops: "batch (store (final_tail env (receipts_loop env receipts v))) = batch (store v) @ ops"
    and sz: "size' (final_tail env (receipts_loop env receipts v))
      = size' v + of_nat (length (absent_keys (db (store v)) (staged_keys ops)))"
    by (auto simp: counted_def staged_between_def)
  from ops have d: "drop (length (batch (store v)))
      (batch (store (final_tail env (receipts_loop env receipts v)))) = ops"
    by simp
  have one: "size' (stage_tail protoTail v)
     = (if db_Has (db (store v)) (tailHash v) then size' v else size' v + 1)"
    by (simp add: stage_tail_def)
  have two: "batch (store (stage_tail protoTail v)) = batch (store v) @ [BatchSet (tailHash v) protoTail]"
    by (simp add: stage_tail_def batch_Set_def)
  from one have three: "size' (stage_tail protoTail v) \<noteq> size' v \<longleftrightarrow> \<not> db_Has (db (store v)) (tailHash v)"
    by simp
  from one two three ops sz d show ?thesis
    by simp
qed

theorem tail_staging_counts_absent_keys_witness:
  "size' linked_vars = 2
   \<and> staged_keys (batch (store (final_tail demo_env (receipts_loop demo_env [rC] linked_vars))))
       = [[11], [12]]
   \<and> db_Has (db linked_store) [11] \<and> \<not> db_Has (db linked_store) [12]
   \<and> size' (final_tail demo_env (receipts_loop demo_env [rC] linked_vars)) = 3"
proof -
  have b: "batch (store (final_tail demo_env (receipts_loop demo_env [rC] linked_vars)))
      = [BatchSet [11] [1, 1, 11, 0, 0, 0, 0, 0, 0, 1, 12, 0],
         BatchSet [12] [1, 1, 12, 0, 1, 0, 0, 0, 0, 0]]"
    by code_simp
  have h: "db_Has (db linked_store) [11]" "\<not> db_Has (db linked_store) [12]"
    by (simp_all add: db_Has_def linked_store_def)
  have s: "store linked_vars = linked_store" "size' linked_vars = 2" "batch linked_store = []"
    by (simp_all add: linked_vars_def linked_store_def)
  from tail_staging_counts_absent_keys [of "[]" linked_vars demo_env "[rC]"]
  have "size' (final_tail demo_env (receipts_loop demo_env [rC] linked_vars))
      = size' linked_vars + of_nat (length (absent_keys (db (store linked_vars)) (staged_keys
           (drop (length (batch (store linked_vars)))
              (batch (store (final_tail demo_env (receipts_loop demo_env [rC] linked_vars))))))))"
    by blast
  with b h s show ?thesis
    by (simp add: absent_keys_def)
qed

subsection \<open>Skipped receipts\<close>

lemma loop_body_skipped: "skipped txReceipt \<Longrightarrow> loop_body env txReceipt v = v"
  by (auto simp: loop_body_def skipped_def split: option.splits)

lemma receipts_loop_filter:
  "receipts_loop env receipts v = receipts_loop env (filter (\<lambda>r. \<not> skipped r) receipts) v"
  by (induction receipts arbitrary: v) (simp_all add: loop_body_skipped)

lemma link_phase_filter:
  assumes "receipts = [] \<longleftrightarrow> receipts' = []"
    and "filter (\<lambda>r. \<not> skipped r) receipts = filter (\<lambda>r. \<not> skipped r) receipts'"
  shows "link_phase env s receipts = link_phase env s receipts'"
proof -
  have "receipts_loop env receipts v = receipts_loop env receipts' v" for v
    using assms(2) receipts_loop_filter [of env receipts v] receipts_loop_filter [of env receipts' v]
    by simp
  then have loops: "receipts_loop env receipts = receipts_loop env receipts'"
    by (rule ext)
  from assms(1) have guard: "(length receipts = 0) = (length receipts' = 0)"
    by simp
  show ?thesis
    by (simp only: link_phase_def loops guard)
qed

text \<open>
  C7, as amended. A receipt that is \<open>nil\<close> or has an empty \<open>TxHash\<close> is skipped without
  an error: its iteration leaves every variable of the call as it was (size, head, tail,
  the tail item, the batch, the success-hash list and the events), so the loop over the
  input ends in the state of the loop over the input without the skipped receipts, and
  two calls whose inputs differ only in skipped receipts, neither input being empty when
  the other is not, return the same result and the same store. A non-empty input of
  skipped receipts only is not the empty input: every such call does what the call on
  the single \<open>nil\<close> receipt does, which goes past the guard of line 37.
\<close>

theorem skipped_receipts_have_no_effect:
  "(skipped txReceipt \<longrightarrow> loop_body env txReceipt v = v)
   \<and> receipts_loop env receipts v = receipts_loop env (filter (\<lambda>r. \<not> skipped r) receipts) v
   \<and> ((receipts = [] \<longleftrightarrow> receipts' = [])
        \<and> filter (\<lambda>r. \<not> skipped r) receipts = filter (\<lambda>r. \<not> skipped r) receipts'
      \<longrightarrow> CommitReceipts env s receipts height = CommitReceipts env s receipts' height)
   \<and> (receipts \<noteq> [] \<and> filter (\<lambda>r. \<not> skipped r) receipts = []
      \<longrightarrow> CommitReceipts env s receipts height = CommitReceipts env s [None] height)"
proof -
  have none: "filter (\<lambda>r. \<not> skipped r) [None] = []"
    by (simp add: skipped_def)
  have "CommitReceipts env s receipts height = CommitReceipts env s [None] height"
    if "receipts \<noteq> []" and "filter (\<lambda>r. \<not> skipped r) receipts = []"
    using that none link_phase_filter [of receipts "[None]" env s]
    by (simp add: CommitReceipts_def)
  with loop_body_skipped [of txReceipt env v] receipts_loop_filter [of env receipts v]
    link_phase_filter [of receipts receipts' env s]
  show ?thesis
    by (auto simp: CommitReceipts_def)
qed

theorem skipped_receipts_have_no_effect_witness:
  "skipped None \<and> skipped (receipt [] 1 [EventData [9]])
   \<and> CommitReceipts demo_env (empty_store 2) [None, rA, receipt [] 1 [EventData [9]], rB] 1
       = CommitReceipts demo_env (empty_store 2) [rA, rB] 1"
proof -
  have sk: "skipped None" "skipped (receipt [] 1 [EventData [9]])" "\<not> skipped rA" "\<not> skipped rB"
    by (simp_all add: skipped_def receipt_def rA_def rB_def)
  then have "filter (\<lambda>r. \<not> skipped r) [None, rA, receipt [] 1 [EventData [9]], rB]
      = filter (\<lambda>r. \<not> skipped r) [rA, rB]"
    by simp
  with skipped_receipts_have_no_effect
    [where env = demo_env and s = "empty_store 2" and height = 1 and receipts' = "[rA, rB]"
      and receipts = "[None, rA, receipt [] 1 [EventData [9]], rB]"]
  have "CommitReceipts demo_env (empty_store 2) [None, rA, receipt [] 1 [EventData [9]], rB] 1
      = CommitReceipts demo_env (empty_store 2) [rA, rB] 1"
    by simp
  with sk show ?thesis by simp
qed

text \<open>
  C7 as stated fails on a call whose only receipt is \<open>nil\<close>. Without the skipped receipt
  the input is empty and the call changes nothing. With it, on a chain of two nodes under
  a bound of one, the call succeeds, evicts the head, so that size goes from 2 to 1 and
  head from \<open>[10]\<close> to \<open>[11]\<close>, and creates both per-height entries.
\<close>

theorem only_skipped_receipts_counterexample:
  "skipped None
   \<and> CommitReceipts demo_env over_bound_store [] 3 = Returns (None, over_bound_store)
   \<and> stored_params demo_env over_bound_store = ([2, 0, 0, 0, 0, 0, 0, 0], [10], [11])
   \<and> height_entries demo_env 3 over_bound_store = (None, None)
   \<and> map_option (stored_params demo_env) (commit_all demo_env over_bound_store [([None], 3)])
       = Some ([1, 0, 0, 0, 0, 0, 0, 0], [11], [11])
   \<and> map_option (height_entries demo_env 3) (commit_all demo_env over_bound_store [([None], 3)])
       = Some (Some [], Some [])"
proof (intro conjI)
  show "skipped None"
    by (simp add: skipped_def)
  show "CommitReceipts demo_env over_bound_store [] 3 = Returns (None, over_bound_store)"
    by (simp add: CommitReceipts_def link_phase_def)
  show "stored_params demo_env over_bound_store = ([2, 0, 0, 0, 0, 0, 0, 0], [10], [11])"
    by code_simp
  show "height_entries demo_env 3 over_bound_store = (None, None)"
    by code_simp
  show "map_option (stored_params demo_env) (commit_all demo_env over_bound_store [([None], 3)])
       = Some ([1, 0, 0, 0, 0, 0, 0, 0], [11], [11])"
    by code_simp
  show "map_option (height_entries demo_env 3) (commit_all demo_env over_bound_store [([None], 3)])
       = Some (Some [], Some [])"
    by code_simp
qed

subsection \<open>Eviction\<close>










subsection \<open>The success-hash list and the events\<close>

lemma stage_tail_lists [simp]:
  "txHashArray (stage_tail p v) = txHashArray v" "events (stage_tail p v) = events v"
  by (simp_all add: stage_tail_def)







lemma final_tail_lists [simp]:
  "txHashArray (final_tail env v) = txHashArray v" "events (final_tail env v) = events v"
  by (simp_all add: final_tail_def split: sum.splits)







subsection \<open>The chain after eviction\<close>

text \<open>
  C2. The chain invariant does not survive every sequence of successful calls from the
  empty store. \<open>removeOldEntries\<close> reads the nodes from the durable store while the new
  next pointer of the previous tail is only staged in the batch, so an eviction that
  reaches the previous tail reads its old, empty next pointer and returns an empty head.
  With a bound of 1, committing one receipt and then another succeeds twice and leaves
  size 1 with an empty head and the tail set; with a bound of 2, committing two
  receipts and then two more leaves size 2 with an empty head. In both final states
  \<open>getDBParams\<close> itself reports "no head for non zero size receipt db". After the first
  call of each sequence the invariant holds.
\<close>

theorem eviction_reaching_old_tail_breaks_chain:
  "map_option (chain_invariant demo_env) (commit_all demo_env (empty_store 1) [([rA], 1)])
     = Some True
   \<and> map_option (chain_invariant demo_env)
       (commit_all demo_env (empty_store 1) [([rA], 1), ([rB], 2)]) = Some False
   \<and> map_option (stored_params demo_env)
       (commit_all demo_env (empty_store 1) [([rA], 1), ([rB], 2)])
       = Some ([1, 0, 0, 0, 0, 0, 0, 0], [], [11])
   \<and> map_option (getDBParams demo_env)
       (commit_all demo_env (empty_store 1) [([rA], 1), ([rB], 2)])
       = Some (Returns (0, [], [], Some (ErrorsNew ''no head for non zero size receipt db'')))
   \<and> map_option (chain_invariant demo_env) (commit_all demo_env (empty_store 2) [([rA, rB], 1)])
       = Some True
   \<and> map_option (chain_invariant demo_env)
       (commit_all demo_env (empty_store 2) [([rA, rB], 1), ([rC, rD], 2)]) = Some False
   \<and> map_option (stored_params demo_env)
       (commit_all demo_env (empty_store 2) [([rA, rB], 1), ([rC, rD], 2)])
       = Some ([2, 0, 0, 0, 0, 0, 0, 0], [], [13])"
proof (intro conjI)
  show "map_option (chain_invariant demo_env) (commit_all demo_env (empty_store 1) [([rA], 1)])
     = Some True"
    by code_simp
  show "map_option (chain_invariant demo_env)
       (commit_all demo_env (empty_store 1) [([rA], 1), ([rB], 2)]) = Some False"
    by code_simp
  show "map_option (stored_params demo_env)
       (commit_all demo_env (empty_store 1) [([rA], 1), ([rB], 2)])
       = Some ([1, 0, 0, 0, 0, 0, 0, 0], [], [11])"
    by code_simp
  show "map_option (getDBParams demo_env)
       (commit_all demo_env (empty_store 1) [([rA], 1), ([rB], 2)])
       = Some (Returns (0, [], [], Some (ErrorsNew ''no head for non zero size receipt db'')))"
    by code_simp
  show "map_option (chain_invariant demo_env) (commit_all demo_env (empty_store 2) [([rA, rB], 1)])
       = Some True"
    by code_simp
  show "map_option (chain_invariant demo_env)
       (commit_all demo_env (empty_store 2) [([rA, rB], 1), ([rC, rD], 2)]) = Some False"
    by code_simp
  show "map_option (stored_params demo_env)
       (commit_all demo_env (empty_store 2) [([rA, rB], 1), ([rC, rD], 2)])
       = Some ([2, 0, 0, 0, 0, 0, 0, 0], [], [13])"
    by code_simp
qed

end
